theory Spec2Isabelle
  imports Complex_Main
begin

section \<open>Numbers and constants of server.ts\<close>


definition releaseInterval :: int where
  "releaseInterval = 5 * 60 * 1000"

definition releaseBatches :: int where
  "releaseBatches = 10"

section \<open>Rooms and their virtual browser session\<close>

text \<open>
  The fields of a room that server.ts reads. A field that may be \<open>undefined\<close> is an
  option. \<open>lastUpdateTime\<close> is the Date as milliseconds, as \<open>Number(...)\<close> reads it.
\<close>

record vbrowser =
  assignTime :: "int option"
  large :: bool
  vmId :: "string option"
  provider :: "string option"
  creatorUID :: "string option"
  creatorClientID :: "string option"

record room =
  roomId :: string
  roster :: "string list"
  vBrowser :: "vbrowser option"
  lastUpdateTime :: int

text \<open>
  The calls a sweep makes on a room or on the counter store, in the order it makes them.
\<close>

datatype action =
  StopVBrowserInternal
  | AddChatMessage string
  | RedisCount string
  | Destroy

text \<open>
  The collaborators of the sweep that live in other modules: the string hash of
  utils/string, the session limit of vm/utils, and whether a call made for a room ends
  in an error. A hash value is a non-negative integer: the sweep compares its remainder
  with a counter that is never negative.
\<close>

record collab =
  hashString :: "string \<Rightarrow> nat"
  getSessionLimitSeconds :: "bool \<Rightarrow> int"
  throws :: "string \<Rightarrow> action \<Rightarrow> bool"

record server =
  rooms :: "(string \<times> room) list"
  currBatch :: int
  log :: "(string \<times> action) list"

datatype outcome = Returned | Thrown

section \<open>The release sweep\<close>



text \<open>
  The body of the loop for one room: \<open>t1\<close> is the reading of \<open>Number(new Date())\<close>,
  \<open>t2\<close> the reading of \<open>Date.now()\<close>. A number is truthy when it is not zero, so
  \<open>ttl && ttl < releaseInterval\<close> is false at \<open>ttl = 0\<close>. The result is the list of
  calls of the branch taken.
\<close>

definition roomActions :: "collab \<Rightarrow> int \<Rightarrow> int \<Rightarrow> room \<Rightarrow> action list" where
  "roomActions c t1 t2 r =
     (case vBrowser r of
        None \<Rightarrow> []
      | Some vb \<Rightarrow>
          (case assignTime vb of
             None \<Rightarrow> []
           | Some t0 \<Rightarrow>
               if t0 = 0 then []
               else
                 let maxTime = getSessionLimitSeconds c (large vb) * 1000;
                     elapsed = t1 - t0;
                     ttl = maxTime - elapsed;
                     isTimedOut = (ttl \<noteq> 0 \<and> ttl < releaseInterval);
                     isAlmostTimedOut = (ttl \<noteq> 0 \<and> ttl < releaseInterval * 2);
                     isRoomEmpty = (length (roster r) = 0);
                     isRoomIdle = (t2 - lastUpdateTime r > 5 * 60 * 1000)
                 in if isTimedOut \<or> (isRoomEmpty \<and> isRoomIdle) then
                      StopVBrowserInternal #
                        (if isTimedOut then
                           [AddChatMessage ''vBrowserTimeout'',
                            RedisCount ''vBrowserTerminateTimeout'']
                         else if isRoomEmpty then [RedisCount ''vBrowserTerminateEmpty'']
                         else [])
                    else if isAlmostTimedOut then [AddChatMessage ''vBrowserAlmostTimeout'']
                    else []))"

text \<open>
  Modelled from the spec: \<open>Room.stopVBrowserInternal\<close> (room.ts is not among the
  sources) releases the session, that is, clears the session reference of the room.
  A chat message and a counter increment leave the fields above as they are.
\<close>

fun perform :: "room \<Rightarrow> action \<Rightarrow> room" where
  "perform r StopVBrowserInternal = r\<lparr>vBrowser := None\<rparr>"
| "perform r (AddChatMessage cmd) = r"
| "perform r (RedisCount key) = r"
| "perform r Destroy = r"

text \<open>
  The calls run in order, and \<open>release\<close> awaits none of them. Modelled from the spec:
  the stop signal, the chat message and the counter are fire-and-forget calls, so the
  error of a call is the rejection of a promise that nobody awaits: the call has been
  made, it leaves the room as it was, and the calls after it are made all the same. The
  flag says whether a call of the room ended in an error.
\<close>

fun runActions ::
  "collab \<Rightarrow> room \<Rightarrow> action list \<Rightarrow> (string \<times> action) list
    \<Rightarrow> bool \<times> room \<times> (string \<times> action) list" where
  "runActions c r [] lg = (False, r, lg)"
| "runActions c r (a # as) lg =
     (case runActions c (if throws c (roomId r) a then r else perform r a) as
             (lg @ [(roomId r, a)]) of
        (failed, r', lg') \<Rightarrow> (throws c (roomId r) a \<or> failed, r', lg'))"

text \<open>The body of the loop for one room: the calls of its branch, run in order.\<close>

definition releaseRoom ::
  "collab \<Rightarrow> int \<Rightarrow> int \<Rightarrow> room \<Rightarrow> (string \<times> action) list
    \<Rightarrow> bool \<times> room \<times> (string \<times> action) list" where
  "releaseRoom c t1 t2 r lg = runActions c r (roomActions c t1 t2 r) lg"

text \<open>
  The registry is a JavaScript Map in insertion order; the room objects are shared
  between the registry and \<open>roomArr\<close>, so a change to a room of \<open>roomArr\<close> is a change
  to the registry entry with its key.
\<close>

definition setRoom :: "string \<Rightarrow> room \<Rightarrow> (string \<times> room) list \<Rightarrow> (string \<times> room) list" where
  "setRoom key r rs = map (\<lambda>(k, r0). if k = key then (k, r) else (k, r0)) rs"




text \<open>
  Collaborators to run the sweep on examples: a hash that adds the character codes, a
  limit of three hours (a day for a large session), and calls that never fail.
\<close>

definition sampleCollab :: collab where
  "sampleCollab =
     \<lparr>hashString = (\<lambda>s. sum_list (map of_char s)),
      getSessionLimitSeconds = (\<lambda>l. if l then 86400 else 10800),
      throws = (\<lambda>rid a. False)\<rparr>"


definition sampleSession :: "int \<Rightarrow> vbrowser" where
  "sampleSession t0 =
     \<lparr>assignTime = Some t0, large = False, vmId = Some ''vm1'', provider = Some ''Docker'',
      creatorUID = Some ''u1'', creatorClientID = None\<rparr>"

text \<open>Rooms and a registry to run the sweep on.\<close>


definition roomAtInterval :: room where
  "roomAtInterval =
     \<lparr>roomId = ''/r1'', roster = [''alice''], vBrowser = Some (sampleSession 1000),
      lastUpdateTime = 10501000\<rparr>"

definition roomOneMinuteLeft :: room where
  "roomOneMinuteLeft =
     \<lparr>roomId = ''/r2'', roster = [''alice''], vBrowser = Some (sampleSession 1000),
      lastUpdateTime = 10741000\<rparr>"

definition roomEmptyIdle :: "int \<Rightarrow> room" where
  "roomEmptyIdle t0 =
     \<lparr>roomId = ''/r3'', roster = [], vBrowser = Some (sampleSession t0),
      lastUpdateTime = 10381000\<rparr>"



section \<open>Loading the rooms at startup\<close>

text \<open>
  A row of the table \<open>room\<close>, the configuration values \<open>getAllRooms\<close> reads, and the
  database client: \<open>None\<close> when \<open>DATABASE_URL\<close> is not set, otherwise the function
  from the text of a query to its rows or to the exception it throws. The shard is
  \<open>None\<close> when \<open>config.SHARD\<close> is empty, otherwise its number; \<open>numShards\<close> is the
  number of applications of ecosystem.config that have a shard.
\<close>

record persistentRoom =
  p_roomId :: string
  p_data :: "string option"

record config =
  SHARD :: "int option"
  numShards :: nat

type_synonym pgClient = "string \<Rightarrow> string + persistentRoom list"

text \<open>
  The letters \<open>a\<close> to \<open>z\<close> (codes 97 to 122) whose shard is the configured one. With
  no shard application the remainder is NaN and no letter is selected.
\<close>

definition letterSelection :: "nat \<Rightarrow> int \<Rightarrow> string list" where
  "letterSelection n shard =
     map (\<lambda>i. [char_of i])
       (filter (\<lambda>i. n \<noteq> 0 \<and> int (i mod n) + 1 = shard) [97..<123])"

fun join :: "string \<Rightarrow> string list \<Rightarrow> string" where
  "join sep [] = []"
| "join sep [x] = x"
| "join sep (x # y # ys) = x @ sep @ join sep (y # ys)"

definition shardRange :: "config \<Rightarrow> string" where
  "shardRange cfg =
     (case SHARD cfg of
        None \<Rightarrow> ''/%''
      | Some shard \<Rightarrow> ''/('' @ join ''|'' (letterSelection (numShards cfg) shard) @ '')%'')"

definition getAllRooms :: "config \<Rightarrow> pgClient option \<Rightarrow> string + persistentRoom list" where
  "getAllRooms cfg postgres =
     (case postgres of
        None \<Rightarrow> Inr []
      | Some query \<Rightarrow>
          query (''SELECT * from room where \"roomId\" SIMILAR TO '' @ [CHR 0x27]
                   @ shardRange cfg @ [CHR 0x27]))"

text \<open>
  The process around the registry: whether the server listens, the interval timers set
  (with their period in milliseconds) and whether the save loop has been started.
\<close>

datatype timer = MinuteMetrics | Release | FreeUnusedRooms

record process = server +
  listening :: bool
  timers :: "(timer \<times> int) list"
  saveRoomsStarted :: bool

definition initialProcess :: process where
  "initialProcess =
     \<lparr>rooms = [], currBatch = 0, log = [], listening = False, timers = [],
      saveRoomsStarted = False\<rparr>"

text \<open>\<open>Map.set\<close>: an existing key keeps its place, a new key goes to the end.\<close>

definition mapSet :: "string \<Rightarrow> room \<Rightarrow> (string \<times> room) list \<Rightarrow> (string \<times> room) list" where
  "mapSet key r rs = (if key \<in> fst ` set rs then setRoom key r rs else rs @ [(key, r)])"

text \<open>
  The loop of \<open>init\<close> over the rows. The constructor of \<open>Room\<close> (room.ts) is a
  parameter: it takes the id and the serialised data of the row, if any.
\<close>

fun loadRooms ::
  "(string \<Rightarrow> string option \<Rightarrow> room) \<Rightarrow> persistentRoom list \<Rightarrow> (string \<times> room) list
    \<Rightarrow> (string \<times> room) list" where
  "loadRooms newRoom [] rs = rs"
| "loadRooms newRoom (pr # prs) rs =
     loadRooms newRoom prs (mapSet (p_roomId pr) (newRoom (p_roomId pr) (p_data pr)) rs)"

text \<open>
  \<open>init\<close> awaits \<open>getAllRooms\<close> outside any \<open>try\<close>: an exception of the query ends
  \<open>init\<close> there. The development-only \<open>require\<close> at its end is left out.
\<close>

definition init ::
  "config \<Rightarrow> pgClient option \<Rightarrow> (string \<Rightarrow> string option \<Rightarrow> room) \<Rightarrow> process
    \<Rightarrow> outcome \<times> process" where
  "init cfg postgres newRoom p =
     (case (case postgres of
              None \<Rightarrow> Inr p
            | Some query \<Rightarrow>
                (case getAllRooms cfg postgres of
                   Inl e \<Rightarrow> Inl e
                 | Inr persistedRooms \<Rightarrow>
                     Inr (p\<lparr>rooms := loadRooms newRoom persistedRooms (rooms p)\<rparr>))) of
        Inl e \<Rightarrow> (Thrown, p)
      | Inr p1 \<Rightarrow>
          let p2 = (if ''/default'' \<notin> fst ` set (rooms p1)
                    then p1\<lparr>rooms := mapSet ''/default'' (newRoom ''/default'' None) (rooms p1)\<rparr>
                    else p1)
          in (Returned,
              p2\<lparr>listening := True,
                 timers := timers p2 @
                   [(MinuteMetrics, 60 * 1000),
                    (Release, releaseInterval div releaseBatches),
                    (FreeUnusedRooms, 5 * 60 * 1000)],
                 saveRoomsStarted := True\<rparr>))"

section \<open>The memory reclaimer\<close>

text \<open>
  \<open>rooms.forEach\<close> of \<open>freeUnusedRooms\<close>: the entries are visited in order; an empty
  room whose id is not in the persisted set is destroyed and its key deleted.
\<close>

fun freeLoop :: "string set \<Rightarrow> (string \<times> room) list \<Rightarrow> server \<Rightarrow> server" where
  "freeLoop persistedSet [] s = s"
| "freeLoop persistedSet ((key, r) # rest) s =
     freeLoop persistedSet rest
       (if length (roster r) = 0 then
          (if roomId r \<notin> persistedSet then
             s\<lparr>rooms := filter (\<lambda>(k, r0). k \<noteq> key) (rooms s),
               log := log s @ [(roomId r, Destroy)]\<rparr>
           else s)
        else s)"

definition freeUnusedRooms :: "config \<Rightarrow> pgClient option \<Rightarrow> server \<Rightarrow> outcome \<times> server" where
  "freeUnusedRooms cfg postgres s =
     (case getAllRooms cfg postgres of
        Inl e \<Rightarrow> (Thrown, s)
      | Inr persistedRooms \<Rightarrow>
          let persistedSet = set (map p_roomId persistedRooms)
          in (Returned, freeLoop persistedSet (rooms s) s))"

text \<open>A constructor and a registry to run startup and the reclaimer on.\<close>

definition sampleNewRoom :: "string \<Rightarrow> string option \<Rightarrow> room" where
  "sampleNewRoom key d = \<lparr>roomId = key, roster = [], vBrowser = None, lastUpdateTime = 0\<rparr>"

definition sampleRegistry :: server where
  "sampleRegistry =
     \<lparr>rooms = [(''/gone'', sampleNewRoom ''/gone'' None),
              (''/kept'', sampleNewRoom ''/kept'' None),
              (''/live'', (sampleNewRoom ''/live'' None)\<lparr>roster := [''carol'']\<rparr>)],
      currBatch = 0, log = []\<rparr>"

definition samplePostgres :: pgClient where
  "samplePostgres q = Inr [\<lparr>p_roomId = ''/kept'', p_data = None\<rparr>]"

definition brokenPostgres :: pgClient where
  "brokenPostgres q = Inl ''connection terminated''"

section \<open>The subscriber reconciler (syncSubs.ts)\<close>

text \<open>
  A value that is a string, \<open>null\<close> or \<open>undefined\<close>: the email of a customer as the
  email map returns it, and the key of the uid map.
\<close>

datatype jsString = Undefined | Null | Str string

fun truthy :: "jsString \<Rightarrow> bool" where
  "truthy (Str s) = (s \<noteq> [])"
| "truthy Null = False"
| "truthy Undefined = False"

text \<open>
  The answers of the billing provider, and the user of the identity provider. Modelled
  from the spec: \<open>getUserByEmail\<close> (utils/firebase is not among the sources) returns a
  user with a uid and an email, or nothing.
\<close>

record subscription =
  customer :: string
  status :: string

record stripeCustomer =
  cust_id :: string
  cust_email :: "string option"

record fbUser =
  user_uid :: string
  user_email :: string

record subscriberRow =
  customerId :: string
  email :: jsString
  row_status :: string
  uid :: "string option"

text \<open>\<open>emailMap\<close>: a later customer with the same id replaces the earlier one.\<close>

definition emailMapOf :: "stripeCustomer list \<Rightarrow> string \<Rightarrow> jsString" where
  "emailMapOf customers k =
     (case fold (\<lambda>cust m. m(cust_id cust \<mapsto> cust_email cust)) customers Map.empty k of
        None \<Rightarrow> Undefined
      | Some None \<Rightarrow> Null
      | Some (Some e) \<Rightarrow> Str e)"

text \<open>
  One batch: the subscriptions with a truthy email are looked up; the others give
  \<open>null\<close> and are filtered out. A lookup that finds nobody stays in the list.
\<close>

definition fetchBatch ::
  "(string \<Rightarrow> fbUser option) \<Rightarrow> (string \<Rightarrow> jsString) \<Rightarrow> subscription list \<Rightarrow> fbUser option list" where
  "fetchBatch getUser emailMap batch =
     concat (map (\<lambda>sub. case emailMap (customer sub) of
                           Str e \<Rightarrow> if e \<noteq> [] then [getUser e] else []
                         | Null \<Rightarrow> []
                         | Undefined \<Rightarrow> []) batch)"

text \<open>
  \<open>uidMap.set(user?.email, user?.uid)\<close>: a missing user sets the key \<open>undefined\<close> to
  \<open>undefined\<close>. The map is the function that \<open>uidMap.get\<close> computes.
\<close>

definition setUser :: "fbUser option \<Rightarrow> (jsString \<Rightarrow> string option) \<Rightarrow> jsString \<Rightarrow> string option" where
  "setUser user m =
     (case user of
        None \<Rightarrow> m(Undefined := None)
      | Some u \<Rightarrow> m(Str (user_email u) := Some (user_uid u)))"

text \<open>The loop over the subscriptions in steps of 50.\<close>

function uidLoop ::
  "(string \<Rightarrow> fbUser option) \<Rightarrow> (string \<Rightarrow> jsString) \<Rightarrow> subscription list \<Rightarrow> nat
    \<Rightarrow> (jsString \<Rightarrow> string option) \<Rightarrow> jsString \<Rightarrow> string option" where
  "uidLoop getUser emailMap subs i uidMap =
     (if i < length subs then
        uidLoop getUser emailMap subs (i + 50)
          (fold setUser (fetchBatch getUser emailMap (take 50 (drop i subs))) uidMap)
      else uidMap)"
  by pat_completeness auto
termination
  by (relation "measure (\<lambda>(getUser, emailMap, subs, i, uidMap). length subs - i)") auto

text \<open>The provider answers of one pass, the two configuration values the pass tests,
  and whether a query of the transaction throws.\<close>

record syncEnv =
  STRIPE_SECRET_KEY :: bool
  FIREBASE_ADMIN_SDK_CONFIG :: bool
  getAllActiveSubscriptions :: "subscription list"
  getAllCustomers :: "stripeCustomer list"
  getUserByEmail :: "string \<Rightarrow> fbUser option"
  queryThrows :: bool

text \<open>\<open>result\<close>: one record per subscription.\<close>

definition candidates :: "syncEnv \<Rightarrow> subscriberRow list" where
  "candidates env =
     (let subs = getAllActiveSubscriptions env;
          emailMap = emailMapOf (getAllCustomers env);
          uidMap = uidLoop (getUserByEmail env) emailMap subs 0 (\<lambda>k. None)
      in map (\<lambda>sub.
                \<lparr>customerId = customer sub,
                 email = emailMap (customer sub),
                 row_status = status sub,
                 uid = uidMap (emailMap (customer sub))\<rparr>) subs)"

text \<open>
  The hash is fed the uid of every record in order; \<open>update\<close> throws a TypeError on
  \<open>undefined\<close>. The data fed so far is the accumulator, the digest is its MD5.
\<close>

datatype typeError = TypeError

fun hashUpdates :: "subscriberRow list \<Rightarrow> string \<Rightarrow> typeError + string" where
  "hashUpdates [] acc = Inr acc"
| "hashUpdates (row # rows) acc =
     (case uid row of
        None \<Rightarrow> Inl TypeError
      | Some u \<Rightarrow> hashUpdates rows (acc @ u))"

text \<open>The two tables the transaction writes.\<close>

record roomRow =
  row_roomId :: string
  owner :: "string option"
  isSubRoom :: bool

record database =
  subscriberTable :: "subscriberRow list"
  roomTable :: "roomRow list"

text \<open>
  Modelled from the spec: \<open>insertObject\<close> and \<open>updateObject\<close> (utils/postgres is not
  among the sources) insert the record into the subscriber table and set the flag of
  every room row whose owner equals the uid; a row without owner matches no uid.
\<close>

definition insertObject :: "subscriberRow list \<Rightarrow> subscriberRow \<Rightarrow> subscriberRow list" where
  "insertObject tbl row = tbl @ [row]"

definition updateObject :: "roomRow list \<Rightarrow> string option \<Rightarrow> roomRow list" where
  "updateObject tbl u =
     (case u of
        None \<Rightarrow> tbl
      | Some _ \<Rightarrow> map (\<lambda>r. if owner r = u then r\<lparr>isSubRoom := True\<rparr> else r) tbl)"

fun upsertLoop :: "subscriberRow list \<Rightarrow> database \<Rightarrow> database" where
  "upsertLoop [] d = d"
| "upsertLoop (row # rows) d =
     upsertLoop rows
       (d\<lparr>subscriberTable := insertObject (subscriberTable d) row,
          roomTable := updateObject (roomTable d) (uid row)\<rparr>)"

definition transaction :: "subscriberRow list \<Rightarrow> database \<Rightarrow> database" where
  "transaction result d =
     upsertLoop result
       (d\<lparr>subscriberTable := [],
          roomTable := map (\<lambda>r. r\<lparr>isSubRoom := False\<rparr>) (roomTable d)\<rparr>)"

text \<open>
  The state the pass keeps between runs and the ways a pass ends: without
  credentials, with the TypeError of the hash, with \<open>process.exit\<close> after a failed
  query (the open transaction is not committed), with the writes skipped, or with the
  transaction committed. \<open>md5\<close> is the digest function of the crypto library.
\<close>

record syncState =
  lastSubsDigest :: "string option"
  db :: database

datatype passOutcome = NoConfig | HashThrew | Exited | Unchanged | Committed

definition syncSubscribers ::
  "(string \<Rightarrow> string) \<Rightarrow> syncEnv \<Rightarrow> syncState \<Rightarrow> passOutcome \<times> syncState" where
  "syncSubscribers md5 env st =
     (if \<not> STRIPE_SECRET_KEY env \<or> \<not> FIREBASE_ADMIN_SDK_CONFIG env then (NoConfig, st)
      else
        let result = candidates env
        in case hashUpdates result [] of
             Inl e \<Rightarrow> (HashThrew, st)
           | Inr fed \<Rightarrow>
               let currentSubsDigest = md5 fed
               in if Some currentSubsDigest \<noteq> lastSubsDigest st then
                    (if queryThrows env then (Exited, st)
                     else (Committed,
                           \<lparr>lastSubsDigest = Some currentSubsDigest,
                            db = transaction result (db st)\<rparr>))
                  else (Unchanged, st\<lparr>lastSubsDigest := Some currentSubsDigest\<rparr>))"

text \<open>Provider answers, a digest function and a database to run passes on.\<close>

definition sampleEnv :: "subscription list \<Rightarrow> syncEnv" where
  "sampleEnv subs =
     \<lparr>STRIPE_SECRET_KEY = True, FIREBASE_ADMIN_SDK_CONFIG = True,
      getAllActiveSubscriptions = subs,
      getAllCustomers =
        [\<lparr>cust_id = ''cus_1'', cust_email = Some ''ann@x.org''\<rparr>,
         \<lparr>cust_id = ''cus_2'', cust_email = Some ''bob@x.org''\<rparr>,
         \<lparr>cust_id = ''cus_3'', cust_email = Some ''cat@x.org''\<rparr>],
      getUserByEmail =
        (\<lambda>e. if e = ''ann@x.org'' then Some \<lparr>user_uid = ''uA'', user_email = e\<rparr>
              else if e = ''bob@x.org'' then Some \<lparr>user_uid = ''uB'', user_email = e\<rparr>
              else None),
      queryThrows = False\<rparr>"

definition sampleSubs :: "subscription list" where
  "sampleSubs =
     [\<lparr>customer = ''cus_1'', status = ''active''\<rparr>,
      \<lparr>customer = ''cus_2'', status = ''active''\<rparr>]"

definition sampleMd5 :: "string \<Rightarrow> string" where
  "sampleMd5 s = ''md5:'' @ s"

definition sampleDb :: database where
  "sampleDb =
     \<lparr>subscriberTable =
        [\<lparr>customerId = ''cus_9'', email = Str ''old@x.org'', row_status = ''active'',
          uid = Some ''uZ''\<rparr>],
      roomTable =
        [\<lparr>row_roomId = ''/one'', owner = Some ''uA'', isSubRoom = False\<rparr>,
         \<lparr>row_roomId = ''/two'', owner = Some ''uZ'', isSubRoom = True\<rparr>,
         \<lparr>row_roomId = ''/three'', owner = None, isSubRoom = True\<rparr>]\<rparr>"

definition sampleStart :: syncState where
  "sampleStart = \<lparr>lastSubsDigest = None, db = sampleDb\<rparr>"

definition sampleSubsLater :: "subscription list" where
  "sampleSubsLater =
     [\<lparr>customer = ''cus_1'', status = ''active''\<rparr>,
      \<lparr>customer = ''cus_2'', status = ''past_due''\<rparr>]"

definition sampleSubsUnresolved :: "subscription list" where
  "sampleSubsUnresolved =
     [\<lparr>customer = ''cus_1'', status = ''active''\<rparr>,
      \<lparr>customer = ''cus_3'', status = ''active''\<rparr>]"

definition sampleSynced :: syncState where
  "sampleSynced =
     \<lparr>lastSubsDigest = Some ''md5:uAuB'',
      db = \<lparr>subscriberTable =
              [\<lparr>customerId = ''cus_1'', email = Str ''ann@x.org'', row_status = ''active'',
                uid = Some ''uA''\<rparr>,
               \<lparr>customerId = ''cus_2'', email = Str ''bob@x.org'', row_status = ''active'',
                uid = Some ''uB''\<rparr>],
            roomTable =
              [\<lparr>row_roomId = ''/one'', owner = Some ''uA'', isSubRoom = True\<rparr>,
               \<lparr>row_roomId = ''/two'', owner = Some ''uZ'', isSubRoom = False\<rparr>,
               \<lparr>row_roomId = ''/three'', owner = None, isSubRoom = False\<rparr>]\<rparr>\<rparr>"

section \<open>The lock renewer (minuteMetrics)\<close>

text \<open>
  The commands sent to the key store. String concatenation writes an undefined value
  as \<open>undefined\<close>; an undefined or empty string is falsy.
\<close>

datatype redisCmd =
  Expire string int
  | Zincrby string int string
  | Expireat string rat

definition js_concat :: "string option \<Rightarrow> string" where
  "js_concat v = (case v of None \<Rightarrow> ''undefined'' | Some s \<Rightarrow> s)"

definition truthyStr :: "string option \<Rightarrow> bool" where
  "truthyStr v = (case v of None \<Rightarrow> False | Some s \<Rightarrow> s \<noteq> [])"

text \<open>
  The body of the loop of \<open>minuteMetrics\<close> for one room; \<open>startOfDay\<close> is the value of
  \<open>getStartOfDay()\<close> (utils/time) in milliseconds.
\<close>

definition renewRoom :: "int \<Rightarrow> room \<Rightarrow> redisCmd list" where
  "renewRoom startOfDay r =
     (case vBrowser r of
        None \<Rightarrow> []
      | Some vb \<Rightarrow>
          if truthyStr (vmId vb) then
            let expireTime = of_int startOfDay / 1000 + 86400
            in [Expire (''lock:'' @ js_concat (provider vb) @ '':'' @ js_concat (vmId vb)) 300,
                Expire (''vBrowserUIDLock:'' @ js_concat (creatorUID vb)) 120]
               @ (if truthyStr (creatorClientID vb) then
                    [Zincrby ''vBrowserClientIDMinutes'' 1 (js_concat (creatorClientID vb)),
                     Expireat ''vBrowserClientIDMinutes'' expireTime]
                  else [])
               @ (if truthyStr (creatorUID vb) then
                    [Zincrby ''vBrowserUIDMinutes'' 1 (js_concat (creatorUID vb)),
                     Expireat ''vBrowserUIDMinutes'' expireTime]
                  else [])
          else [])"

text \<open>
  The commands of one run over the whole registry, in order. Every call is
  \<open>redis?.\<close>: without a key store no command is sent.
\<close>

definition minuteMetrics :: "bool \<Rightarrow> int \<Rightarrow> server \<Rightarrow> redisCmd list" where
  "minuteMetrics redis startOfDay s =
     (if redis then concat (map (\<lambda>(key, r). renewRoom startOfDay r) (rooms s)) else [])"

text \<open>
  Modelled from the spec: the key store with times to live (the Redis server, reached
  through the ioredis library). A key is absent, present without expiry, or present
  until an instant, in seconds. \<open>EXPIRE\<close> and \<open>EXPIREAT\<close> change the expiry of a key
  that is present and do nothing otherwise; \<open>ZINCRBY\<close> creates a missing key and
  leaves an expiry as it is.
\<close>

datatype expiry = Persistent | ExpiresAt rat

fun alive :: "rat \<Rightarrow> expiry option \<Rightarrow> bool" where
  "alive now None = False"
| "alive now (Some Persistent) = True"
| "alive now (Some (ExpiresAt t)) = (now < t)"

fun cmdKey :: "redisCmd \<Rightarrow> string" where
  "cmdKey (Expire k ttl) = k"
| "cmdKey (Zincrby k n m) = k"
| "cmdKey (Expireat k t) = k"

fun redisApply :: "rat \<Rightarrow> redisCmd \<Rightarrow> (string \<Rightarrow> expiry option) \<Rightarrow> string \<Rightarrow> expiry option" where
  "redisApply now (Expire k ttl) st =
     (if alive now (st k) then st(k \<mapsto> ExpiresAt (now + of_int ttl)) else st)"
| "redisApply now (Expireat k t) st =
     (if alive now (st k) then st(k \<mapsto> ExpiresAt t) else st)"
| "redisApply now (Zincrby k n m) st =
     (if alive now (st k) then st else st(k \<mapsto> Persistent))"

text \<open>
  The period in seconds of the timer that \<open>init\<close> has set for a loop; 0 when it has
  set none.
\<close>

definition timerSeconds :: "process \<Rightarrow> timer \<Rightarrow> rat" where
  "timerSeconds p t =
     (case map_of (timers p) t of None \<Rightarrow> 0 | Some ms \<Rightarrow> of_int ms / 1000)"

text \<open>
  The runs of \<open>minuteMetrics\<close> from the instant \<open>now\<close>, one every \<open>period\<close> seconds,
  each with the start of day and the registry of its instant; the commands of a run
  take effect at the instant of the run.
\<close>

fun renewals ::
  "rat \<Rightarrow> rat \<Rightarrow> (int \<times> server) list \<Rightarrow> (string \<Rightarrow> expiry option) \<Rightarrow> string
    \<Rightarrow> expiry option" where
  "renewals period now [] st = st"
| "renewals period now ((startOfDay, s) # runs) st =
     renewals period (now + period) runs
       (fold (redisApply now) (minuteMetrics True startOfDay s) st)"

text \<open>A key store that holds the two locks of the sample session.\<close>

definition sampleLocks :: "string \<Rightarrow> expiry option" where
  "sampleLocks =
     (\<lambda>k. None)(''lock:Docker:vm1'' \<mapsto> ExpiresAt 10, ''vBrowserUIDLock:u1'' \<mapsto> ExpiresAt 5)"

definition sampleRenewed :: server where
  "sampleRenewed =
     \<lparr>rooms = [(''/idle'', sampleNewRoom ''/idle'' None), (''/r2'', roomOneMinuteLeft)],
      currBatch = 0, log = []\<rparr>"


section \<open>Batch rotation\<close>







section \<open>The release decision for one room\<close>

text \<open>
  C1 (amended). When the sweep evaluates a room that holds a session with a set assign
  time, whose calls do not throw and whose remaining time
  \<open>ttl = maxTime - (now - assignTime)\<close> is not zero, the sweep releases the session, sends the chat message \<open>vBrowserTimeout\<close> and
  counts \<open>vBrowserTerminateTimeout\<close> if and only if \<open>ttl < releaseInterval\<close>. A
  standard session assigned one minute less than the session limit ago is such a
  session: it is timed out and cleared.
\<close>

theorem timed_out_iff:
  assumes vb: "vBrowser r = Some vb" and asg: "assignTime vb = Some t0" and at0: "t0 \<noteq> 0"
    and ok: "\<forall>a. \<not> throws c (roomId r) a"
    and ttl: "getSessionLimitSeconds c (large vb) * 1000 - (t1 - t0) \<noteq> 0"
  shows "(releaseRoom c t1 t2 r lg =
           (False, r\<lparr>vBrowser := None\<rparr>,
            lg @ [(roomId r, StopVBrowserInternal),
                  (roomId r, AddChatMessage ''vBrowserTimeout''),
                  (roomId r, RedisCount ''vBrowserTerminateTimeout'')])
         \<longleftrightarrow> getSessionLimitSeconds c (large vb) * 1000 - (t1 - t0) < releaseInterval)
       \<and> (\<not> large vb \<and> t0 = t1 - (getSessionLimitSeconds c False * 1000 - 60 * 1000) \<longrightarrow>
            releaseRoom c t1 t2 r lg =
              (False, r\<lparr>vBrowser := None\<rparr>,
               lg @ [(roomId r, StopVBrowserInternal),
                     (roomId r, AddChatMessage ''vBrowserTimeout''),
                     (roomId r, RedisCount ''vBrowserTerminateTimeout'')]))"
  using assms
  by (auto simp add: releaseRoom_def roomActions_def Let_def releaseInterval_def)

theorem timed_out_iff_witness:
  "vBrowser roomOneMinuteLeft = Some (sampleSession 1000)
   \<and> assignTime (sampleSession 1000) = Some 1000 \<and> (1000::int) \<noteq> 0
   \<and> (\<forall>a. \<not> throws sampleCollab (roomId roomOneMinuteLeft) a)
   \<and> getSessionLimitSeconds sampleCollab (large (sampleSession 1000)) * 1000 - (10741000 - 1000) \<noteq> 0
   \<and> releaseRoom sampleCollab 10741000 10741000 roomOneMinuteLeft [] =
       (False, roomOneMinuteLeft\<lparr>vBrowser := None\<rparr>,
        [(''/r2'', StopVBrowserInternal), (''/r2'', AddChatMessage ''vBrowserTimeout''),
         (''/r2'', RedisCount ''vBrowserTerminateTimeout'')])"
  using timed_out_iff [of roomOneMinuteLeft "sampleSession 1000" 1000 sampleCollab 10741000
      10741000 "[]"]
  by (simp add: roomOneMinuteLeft_def sampleSession_def sampleCollab_def releaseInterval_def)

text \<open>
  A session whose remaining time equals \<open>releaseInterval\<close> is not released: the room
  only receives the warning \<open>vBrowserAlmostTimeout\<close>.
\<close>

theorem timed_out_at_interval_counterexample:
  "getSessionLimitSeconds sampleCollab False * 1000 - (10501000 - 1000) \<le> releaseInterval
   \<and> releaseRoom sampleCollab 10501000 10501000 roomAtInterval [] =
       (False, roomAtInterval, [(''/r1'', AddChatMessage ''vBrowserAlmostTimeout'')])"
  by (simp add: releaseRoom_def roomActions_def roomAtInterval_def sampleSession_def
      sampleCollab_def releaseInterval_def)

text \<open>
  C2 (amended). When the sweep evaluates a room that holds a session with a set assign
  time, has an empty roster and was last updated more than five minutes before the
  clock reading, the session is released whatever its remaining time. With a remaining
  time of at least \<open>releaseInterval\<close> the sweep counts \<open>vBrowserTerminateEmpty\<close> and
  sends no chat message; with a remaining time below \<open>releaseInterval\<close> and not zero
  the release is accounted as a timeout.
\<close>

theorem empty_idle_released:
  assumes vb: "vBrowser r = Some vb" and asg: "assignTime vb = Some t0" and at0: "t0 \<noteq> 0"
    and ok: "\<forall>a. \<not> throws c (roomId r) a"
    and empty: "roster r = []" and idle: "t2 - lastUpdateTime r > 5 * 60 * 1000"
  shows "fst (snd (releaseRoom c t1 t2 r lg)) = r\<lparr>vBrowser := None\<rparr>
       \<and> (releaseInterval \<le> getSessionLimitSeconds c (large vb) * 1000 - (t1 - t0) \<longrightarrow>
          releaseRoom c t1 t2 r lg =
            (False, r\<lparr>vBrowser := None\<rparr>,
             lg @ [(roomId r, StopVBrowserInternal),
                   (roomId r, RedisCount ''vBrowserTerminateEmpty'')]))
       \<and> (getSessionLimitSeconds c (large vb) * 1000 - (t1 - t0) \<noteq> 0
            \<and> getSessionLimitSeconds c (large vb) * 1000 - (t1 - t0) < releaseInterval \<longrightarrow>
          releaseRoom c t1 t2 r lg =
            (False, r\<lparr>vBrowser := None\<rparr>,
             lg @ [(roomId r, StopVBrowserInternal),
                   (roomId r, AddChatMessage ''vBrowserTimeout''),
                   (roomId r, RedisCount ''vBrowserTerminateTimeout'')]))"
  using assms
  by (auto simp add: releaseRoom_def roomActions_def Let_def)

theorem empty_idle_released_witness:
  "vBrowser (roomEmptyIdle 9000000) = Some (sampleSession 9000000)
   \<and> assignTime (sampleSession 9000000) = Some 9000000 \<and> (9000000::int) \<noteq> 0
   \<and> (\<forall>a. \<not> throws sampleCollab (roomId (roomEmptyIdle 9000000)) a)
   \<and> roster (roomEmptyIdle 9000000) = []
   \<and> 10741000 - lastUpdateTime (roomEmptyIdle 9000000) > 5 * 60 * 1000
   \<and> releaseInterval \<le>
        getSessionLimitSeconds sampleCollab (large (sampleSession 9000000)) * 1000
          - (10741000 - 9000000)
   \<and> releaseRoom sampleCollab 10741000 10741000 (roomEmptyIdle 9000000) [] =
       (False, (roomEmptyIdle 9000000)\<lparr>vBrowser := None\<rparr>,
        [(''/r3'', StopVBrowserInternal), (''/r3'', RedisCount ''vBrowserTerminateEmpty'')])"
  using empty_idle_released [of "roomEmptyIdle 9000000" "sampleSession 9000000" 9000000
      sampleCollab 10741000 10741000 "[]"]
  by (simp add: roomEmptyIdle_def sampleSession_def sampleCollab_def releaseInterval_def)

text \<open>
  An empty, idle room whose session has one minute left: the timeout message is sent
  and the timeout counter is incremented, not the counter of empty rooms.
\<close>

theorem empty_idle_timed_out_counterexample:
  "roster (roomEmptyIdle 1000) = []
   \<and> 10741000 - lastUpdateTime (roomEmptyIdle 1000) > 5 * 60 * 1000
   \<and> releaseRoom sampleCollab 10741000 10741000 (roomEmptyIdle 1000) [] =
       (False, (roomEmptyIdle 1000)\<lparr>vBrowser := None\<rparr>,
        [(''/r3'', StopVBrowserInternal), (''/r3'', AddChatMessage ''vBrowserTimeout''),
         (''/r3'', RedisCount ''vBrowserTerminateTimeout'')])"
  by (simp add: releaseRoom_def roomActions_def roomEmptyIdle_def sampleSession_def
      sampleCollab_def releaseInterval_def)

section \<open>The loop of the release sweep\<close>






















section \<open>The memory reclaimer removes the unused rooms\<close>

lemma freeLoop_rooms_log:
  "rooms (freeLoop ps xs s) =
     filter (\<lambda>(k, r0). k \<notin> set (map fst (filter (\<lambda>(k, r). roster r = [] \<and> roomId r \<notin> ps) xs)))
       (rooms s)
   \<and> log (freeLoop ps xs s) =
       log s @ map (\<lambda>(k, r). (roomId r, Destroy))
                (filter (\<lambda>(k, r). roster r = [] \<and> roomId r \<notin> ps) xs)"
proof (induction xs arbitrary: s)
  case Nil
  then show ?case by simp
next
  case (Cons x xs)
  obtain key r where x: "x = (key, r)" by (cases x)
  show ?case
  proof (cases "roster r = [] \<and> roomId r \<notin> ps")
    case True
    have "filter (\<lambda>(k, r0). k \<notin> set (map fst (filter (\<lambda>(k, r). roster r = [] \<and> roomId r \<notin> ps) xs)))
            (filter (\<lambda>(k, r0). k \<noteq> key) (rooms s))
        = filter (\<lambda>(k, r0). k \<noteq> key \<and> k \<notin> set (map fst (filter (\<lambda>(k, r). roster r = [] \<and> roomId r \<notin> ps) xs)))
            (rooms s)"
      by (simp add: case_prod_unfold conj_commute)
    then show ?thesis
      using True by (simp add: x Cons.IH)
  next
    case False
    then show ?thesis
      by (auto simp add: x Cons.IH)
  qed
qed

lemma filter_keys_distinct:
  assumes "distinct (map fst xs)"
  shows "filter (\<lambda>(k, r0). k \<notin> set (map fst (filter P xs))) xs = filter (\<lambda>e. \<not> P e) xs"
proof (rule filter_cong [OF refl])
  fix e assume e: "e \<in> set xs"
  obtain k r where kr: "e = (k, r)" by (cases e)
  have "k \<in> set (map fst (filter P xs)) \<longleftrightarrow> P (k, r)"
  proof
    assume "k \<in> set (map fst (filter P xs))"
    then obtain r' where r': "(k, r') \<in> set xs" "P (k, r')" by auto
    from assms r'(1) e have "r' = r" unfolding kr by (meson eq_key_imp_eq_value)
    with r'(2) show "P (k, r)" by simp
  next
    assume "P (k, r)"
    with e show "k \<in> set (map fst (filter P xs))" unfolding kr by force
  qed
  then show "(case e of (k, r0) \<Rightarrow> k \<notin> set (map fst (filter P xs))) = (\<not> P e)"
    by (simp add: kr)
qed

text \<open>
  C8. A pass of the reclaimer whose fetch of the persisted rooms succeeds leaves in the
  registry exactly the rooms that have a participant or a persisted id, and destroys
  exactly the others, in registry order; a room with a participant always stays.
\<close>

theorem freeUnusedRooms_exact:
  assumes keys: "distinct (map fst (rooms s))"
    and fetched: "getAllRooms cfg postgres = Inr persistedRooms"
  shows "rooms (snd (freeUnusedRooms cfg postgres s)) =
           filter (\<lambda>(k, r). \<not> (roster r = [] \<and> roomId r \<notin> set (map p_roomId persistedRooms)))
             (rooms s)
       \<and> log (snd (freeUnusedRooms cfg postgres s)) =
           log s @ map (\<lambda>(k, r). (roomId r, Destroy))
             (filter (\<lambda>(k, r). roster r = [] \<and> roomId r \<notin> set (map p_roomId persistedRooms))
               (rooms s))
       \<and> (\<forall>(k, r) \<in> set (rooms s). roster r \<noteq> [] \<longrightarrow>
             (k, r) \<in> set (rooms (snd (freeUnusedRooms cfg postgres s))))"
proof -
  let ?ps = "set (map p_roomId persistedRooms)"
  have f: "snd (freeUnusedRooms cfg postgres s) = freeLoop ?ps (rooms s) s"
    by (simp add: freeUnusedRooms_def fetched)
  have r: "rooms (freeLoop ?ps (rooms s) s) =
      filter (\<lambda>e. \<not> (roster (snd e) = [] \<and> roomId (snd e) \<notin> ?ps)) (rooms s)"
    using freeLoop_rooms_log [of ?ps "rooms s" s]
      filter_keys_distinct [OF keys, of "\<lambda>(k, r). roster r = [] \<and> roomId r \<notin> ?ps"]
    by (simp add: case_prod_unfold)
  have r': "rooms (freeLoop ?ps (rooms s) s) =
      filter (\<lambda>(k, r). \<not> (roster r = [] \<and> roomId r \<notin> ?ps)) (rooms s)"
    unfolding r by (rule filter_cong) auto
  have l: "log (freeLoop ?ps (rooms s) s) =
      log s @ map (\<lambda>(k, r). (roomId r, Destroy))
        (filter (\<lambda>(k, r). roster r = [] \<and> roomId r \<notin> ?ps) (rooms s))"
    using freeLoop_rooms_log [of ?ps "rooms s" s] by simp
  have pin: "\<forall>(k, r) \<in> set (rooms s). roster r \<noteq> [] \<longrightarrow> (k, r) \<in> set (rooms (freeLoop ?ps (rooms s) s))"
    unfolding r' by auto
  show ?thesis unfolding f using r' l pin by simp
qed

theorem freeUnusedRooms_exact_witness:
  "distinct (map fst (rooms sampleRegistry))
   \<and> getAllRooms \<lparr>SHARD = None, numShards = 0\<rparr> (Some samplePostgres)
       = Inr [\<lparr>p_roomId = ''/kept'', p_data = None\<rparr>]
   \<and> rooms (snd (freeUnusedRooms \<lparr>SHARD = None, numShards = 0\<rparr> (Some samplePostgres) sampleRegistry))
       = [(''/kept'', sampleNewRoom ''/kept'' None),
          (''/live'', (sampleNewRoom ''/live'' None)\<lparr>roster := [''carol'']\<rparr>)]
   \<and> log (snd (freeUnusedRooms \<lparr>SHARD = None, numShards = 0\<rparr> (Some samplePostgres) sampleRegistry))
       = [(''/gone'', Destroy)]"
proof -
  have a: "distinct (map fst (rooms sampleRegistry))"
    by (simp add: sampleRegistry_def)
  have b: "getAllRooms \<lparr>SHARD = None, numShards = 0\<rparr> (Some samplePostgres)
       = Inr [\<lparr>p_roomId = ''/kept'', p_data = None\<rparr>]"
    by (simp add: getAllRooms_def samplePostgres_def)
  from freeUnusedRooms_exact [OF a b] show ?thesis
    using a b by (simp add: sampleRegistry_def sampleNewRoom_def)
qed

section \<open>Startup and the durable store\<close>

text \<open>
  C7 (amended). Without a configured durable store the startup query is skipped and
  startup completes with no preloaded room: the registry holds the default room only,
  the server listens, the three timers are set and the save loop runs. With a store
  whose startup query throws, the exception leaves \<open>init\<close>: the server does not
  listen and no timer is set.
\<close>

theorem init_without_store:
  "init cfg None newRoom initialProcess =
     (Returned,
      \<lparr>rooms = [(''/default'', newRoom ''/default'' None)], currBatch = 0, log = [],
       listening = True,
       timers = [(MinuteMetrics, 60000), (Release, 30000), (FreeUnusedRooms, 300000)],
       saveRoomsStarted = True\<rparr>)
   \<and> (getAllRooms cfg (Some query) = Inl e \<longrightarrow>
        init cfg (Some query) newRoom initialProcess = (Thrown, initialProcess))"
  by (simp add: init_def initialProcess_def mapSet_def releaseInterval_def releaseBatches_def)

theorem init_without_store_witness:
  "getAllRooms \<lparr>SHARD = None, numShards = 0\<rparr> (Some brokenPostgres) = Inl ''connection terminated''
   \<and> init \<lparr>SHARD = None, numShards = 0\<rparr> (Some brokenPostgres) sampleNewRoom initialProcess
       = (Thrown, initialProcess)
   \<and> init \<lparr>SHARD = None, numShards = 0\<rparr> None sampleNewRoom initialProcess =
     (Returned,
      \<lparr>rooms = [(''/default'', sampleNewRoom ''/default'' None)], currBatch = 0, log = [],
       listening = True,
       timers = [(MinuteMetrics, 60000), (Release, 30000), (FreeUnusedRooms, 300000)],
       saveRoomsStarted = True\<rparr>)"
proof -
  have a: "getAllRooms \<lparr>SHARD = None, numShards = 0\<rparr> (Some brokenPostgres)
      = Inl ''connection terminated''"
    by (simp add: getAllRooms_def brokenPostgres_def)
  from init_without_store [of "\<lparr>SHARD = None, numShards = 0\<rparr>" sampleNewRoom brokenPostgres
      "''connection terminated''"] a
  show ?thesis by simp
qed

text \<open>
  Shard 2 of two shards with a store whose query throws: startup does not complete.
\<close>

theorem init_query_throws_counterexample:
  "shardRange \<lparr>SHARD = Some 2, numShards = 2\<rparr> = ''/(a|c|e|g|i|k|m|o|q|s|u|w|y)%''
   \<and> getAllRooms \<lparr>SHARD = Some 2, numShards = 2\<rparr> (Some brokenPostgres)
       = Inl ''connection terminated''
   \<and> init \<lparr>SHARD = Some 2, numShards = 2\<rparr> (Some brokenPostgres) sampleNewRoom initialProcess
       = (Thrown, initialProcess)
   \<and> \<not> listening initialProcess \<and> timers initialProcess = [] \<and> \<not> saveRoomsStarted initialProcess"
proof -
  have r: "shardRange \<lparr>SHARD = Some 2, numShards = 2\<rparr> = ''/(a|c|e|g|i|k|m|o|q|s|u|w|y)%''"
    by code_simp
  have a: "getAllRooms \<lparr>SHARD = Some 2, numShards = 2\<rparr> (Some brokenPostgres)
      = Inl ''connection terminated''"
    by (simp add: getAllRooms_def brokenPostgres_def)
  have b: "init \<lparr>SHARD = Some 2, numShards = 2\<rparr> (Some brokenPostgres) sampleNewRoom initialProcess
       = (Thrown, initialProcess)"
    by (simp add: init_def a)
  show ?thesis using r a b by (simp add: initialProcess_def)
qed

section \<open>The digest gate and the transaction of the reconciler\<close>

lemma hashUpdates_uids:
  "map uid rows = map uid rows' \<Longrightarrow> hashUpdates rows acc = hashUpdates rows' acc"
proof (induction rows arbitrary: rows' acc)
  case Nil
  then show ?case by simp
next
  case (Cons row rows)
  then obtain row' rest where r: "rows' = row' # rest" "uid row' = uid row" "map uid rows = map uid rest"
    by (cases rows') auto
  show ?case
  proof (cases "uid row")
    case None
    then show ?thesis by (simp add: r)
  next
    case (Some u)
    then show ?thesis using Cons.IH [OF r(3)] by (simp add: r)
  qed
qed

lemma hashUpdates_Inr_iff:
  "(\<exists>fed. hashUpdates rows acc = Inr fed) \<longleftrightarrow> (\<forall>row \<in> set rows. uid row \<noteq> None)"
  by (induction rows arbitrary: acc) (auto split: option.splits)

lemma hashUpdates_throws:
  assumes "row \<in> set rows" and "uid row = None"
  shows "hashUpdates rows acc = Inl TypeError"
proof (cases "hashUpdates rows acc")
  case (Inl e)
  then show ?thesis by (cases e) simp
next
  case (Inr fed)
  then have "\<forall>row \<in> set rows. uid row \<noteq> None"
    using hashUpdates_Inr_iff [of rows acc] by blast
  with assms show ?thesis by blast
qed

text \<open>
  C4. When a pass has completed (its writes committed or skipped) and the next pass
  resolves the same sequence of uids, the next pass computes the stored digest and
  skips the transaction: it ends unchanged with the same database and digest.
\<close>

theorem second_pass_skips_writes:
  assumes first: "syncSubscribers md5 env1 st0 = (out1, st1)"
    and completed: "out1 = Committed \<or> out1 = Unchanged"
    and same: "map uid (candidates env2) = map uid (candidates env1)"
    and cfg: "STRIPE_SECRET_KEY env2" "FIREBASE_ADMIN_SDK_CONFIG env2"
  shows "syncSubscribers md5 env2 st1 = (Unchanged, st1)"
proof -
  from first completed obtain fed where
    fed: "hashUpdates (candidates env1) [] = Inr fed" and last: "lastSubsDigest st1 = Some (md5 fed)"
    by (auto simp: syncSubscribers_def Let_def split: if_splits sum.splits)
  have "hashUpdates (candidates env2) [] = Inr fed"
    using hashUpdates_uids [OF same, of "[]"] fed by simp
  then show ?thesis
    using cfg last by (simp add: syncSubscribers_def Let_def)
qed

lemma upsertLoop_tables:
  "subscriberTable (upsertLoop rows d) = subscriberTable d @ rows
   \<and> roomTable (upsertLoop rows d) =
       map (\<lambda>r. if owner r \<noteq> None \<and> owner r \<in> uid ` set rows then r\<lparr>isSubRoom := True\<rparr> else r)
         (roomTable d)"
proof (induction rows arbitrary: d)
  case Nil
  then show ?case by (simp add: map_idI)
next
  case (Cons row rows)
  show ?case
    by (simp add: Cons.IH insertObject_def updateObject_def split: option.splits)
       (auto intro!: map_cong)
qed

text \<open>
  C5. A pass whose digest differs from the stored one and whose queries do not throw
  commits: the subscriber table is the list of candidate records of the pass, and
  every room row has \<open>isSubRoom\<close> true if its owner is one of the resolved uids of
  the pass and false otherwise.
\<close>

theorem changed_pass_replaces:
  assumes cfg: "STRIPE_SECRET_KEY env" "FIREBASE_ADMIN_SDK_CONFIG env"
    and fed: "hashUpdates (candidates env) [] = Inr fed"
    and changed: "Some (md5 fed) \<noteq> lastSubsDigest st"
    and ok: "\<not> queryThrows env"
  shows "fst (syncSubscribers md5 env st) = Committed
       \<and> subscriberTable (db (snd (syncSubscribers md5 env st))) = candidates env
       \<and> roomTable (db (snd (syncSubscribers md5 env st))) =
           map (\<lambda>r. r\<lparr>isSubRoom := (owner r \<noteq> None \<and> owner r \<in> uid ` set (candidates env))\<rparr>)
             (roomTable (db st))"
proof -
  have s: "syncSubscribers md5 env st =
      (Committed, \<lparr>lastSubsDigest = Some (md5 fed), db = transaction (candidates env) (db st)\<rparr>)"
    using assms by (simp add: syncSubscribers_def Let_def)
  have t1: "subscriberTable (transaction (candidates env) (db st)) = candidates env"
    by (simp add: transaction_def upsertLoop_tables)
  have t2: "roomTable (transaction (candidates env) (db st)) =
      map (\<lambda>r. r\<lparr>isSubRoom := (owner r \<noteq> None \<and> owner r \<in> uid ` set (candidates env))\<rparr>)
        (roomTable (db st))"
    by (simp add: transaction_def upsertLoop_tables o_def)
  show ?thesis by (simp add: s t1 t2)
qed

section \<open>Unresolved identities\<close>

declare uidLoop.simps [simp del]

lemma fetchBatch_append:
  "fetchBatch g em (xs @ ys) = fetchBatch g em xs @ fetchBatch g em ys"
  by (simp add: fetchBatch_def)

lemma uidLoop_fold:
  "uidLoop g em subs i m = fold setUser (fetchBatch g em (drop i subs)) m"
proof (induction g em subs i m rule: uidLoop.induct)
  case (1 g em subs i m)
  show ?case
  proof (cases "i < length subs")
    case True
    have "drop (i + 50) subs = drop 50 (drop i subs)"
      by (simp add: add.commute)
    then have split: "drop i subs = take 50 (drop i subs) @ drop (i + 50) subs"
      by (simp only: append_take_drop_id)
    have "uidLoop g em subs i m =
        uidLoop g em subs (i + 50) (fold setUser (fetchBatch g em (take 50 (drop i subs))) m)"
      using True by (subst uidLoop.simps) simp
    also have "\<dots> = fold setUser (fetchBatch g em (drop (i + 50) subs))
        (fold setUser (fetchBatch g em (take 50 (drop i subs))) m)"
      by (rule "1.IH" [OF True])
    also have "\<dots> = fold setUser (fetchBatch g em (take 50 (drop i subs) @ drop (i + 50) subs)) m"
      by (simp add: fetchBatch_append)
    also have "\<dots> = fold setUser (fetchBatch g em (drop i subs)) m"
      using split by simp
    finally show ?thesis .
  next
    case False
    then show ?thesis
      by (subst uidLoop.simps) (simp add: fetchBatch_def)
  qed
qed

lemma fold_setUser_Undefined:
  "m Undefined = None \<Longrightarrow> fold setUser users m Undefined = None"
  by (induction users arbitrary: m) (auto simp: setUser_def split: option.splits)

lemma fold_setUser_other:
  "\<forall>u. Some u \<in> set users \<longrightarrow> user_email u \<noteq> e \<Longrightarrow>
     fold setUser users m (Str e) = m (Str e)"
  by (induction users arbitrary: m) (auto simp: setUser_def split: option.splits)

lemma emailMap_missing:
  assumes "k \<notin> cust_id ` set customers"
  shows "emailMapOf customers k = Undefined"
proof -
  have "fold (\<lambda>cust m. m(cust_id cust \<mapsto> cust_email cust)) customers m0 k = m0 k" for m0
    using assms by (induction customers arbitrary: m0) auto
  then show ?thesis by (simp add: emailMapOf_def)
qed

lemma candidates_row:
  assumes "sub \<in> set (getAllActiveSubscriptions env)"
  shows "\<lparr>customerId = customer sub,
          email = emailMapOf (getAllCustomers env) (customer sub),
          row_status = status sub,
          uid = fold setUser
                  (fetchBatch (getUserByEmail env) (emailMapOf (getAllCustomers env))
                     (getAllActiveSubscriptions env))
                  (\<lambda>k. None) (emailMapOf (getAllCustomers env) (customer sub))\<rparr>
         \<in> set (candidates env)"
  using assms by (auto simp: candidates_def Let_def uidLoop_fold)

lemma fetchBatch_users:
  assumes "Some u \<in> set (fetchBatch g em subs)"
  shows "\<exists>e. g e = Some u"
  using assms by (auto simp: fetchBatch_def split: jsString.splits if_splits)

text \<open>
  C10. With both credentials configured: a pass with a candidate record whose uid is
  undefined ends with the TypeError of the hash update, the database and the stored
  digest as they were; a pass that commits or skips its writes has resolved every
  uid; a subscription whose customer is missing from the customer list, or (when the
  identity provider returns users under the email asked for) whose email has no user,
  makes the pass throw.
\<close>

theorem unresolved_uid_throws:
  assumes cfg: "STRIPE_SECRET_KEY env" "FIREBASE_ADMIN_SDK_CONFIG env"
  shows "((\<exists>row \<in> set (candidates env). uid row = None) \<longrightarrow>
            syncSubscribers md5 env st = (HashThrew, st))
       \<and> (fst (syncSubscribers md5 env st) \<in> {Committed, Unchanged} \<longrightarrow>
            (\<forall>row \<in> set (candidates env). uid row \<noteq> None))
       \<and> ((\<exists>sub \<in> set (getAllActiveSubscriptions env).
              customer sub \<notin> cust_id ` set (getAllCustomers env)) \<longrightarrow>
            syncSubscribers md5 env st = (HashThrew, st))
       \<and> ((\<forall>e u. getUserByEmail env e = Some u \<longrightarrow> user_email u = e) \<and>
           (\<exists>sub \<in> set (getAllActiveSubscriptions env). \<exists>e.
              emailMapOf (getAllCustomers env) (customer sub) = Str e \<and>
              getUserByEmail env e = None) \<longrightarrow>
            syncSubscribers md5 env st = (HashThrew, st))"
proof -
  let ?em = "emailMapOf (getAllCustomers env)"
  let ?users = "fetchBatch (getUserByEmail env) ?em (getAllActiveSubscriptions env)"
  have throws: "syncSubscribers md5 env st = (HashThrew, st)"
    if "row \<in> set (candidates env)" and "uid row = None" for row
    using hashUpdates_throws [OF that, of "[]"] cfg by (simp add: syncSubscribers_def Let_def)
  have p1: "(\<exists>row \<in> set (candidates env). uid row = None) \<longrightarrow>
      syncSubscribers md5 env st = (HashThrew, st)"
    using throws by blast
  have p2: "fst (syncSubscribers md5 env st) \<in> {Committed, Unchanged} \<longrightarrow>
      (\<forall>row \<in> set (candidates env). uid row \<noteq> None)"
  proof
    assume "fst (syncSubscribers md5 env st) \<in> {Committed, Unchanged}"
    then have "\<exists>fed. hashUpdates (candidates env) [] = Inr fed"
      by (auto simp: syncSubscribers_def Let_def split: if_splits sum.splits)
    then show "\<forall>row \<in> set (candidates env). uid row \<noteq> None"
      by (simp add: hashUpdates_Inr_iff)
  qed
  have p3: "syncSubscribers md5 env st = (HashThrew, st)"
    if sub: "sub \<in> set (getAllActiveSubscriptions env)"
      and miss: "customer sub \<notin> cust_id ` set (getAllCustomers env)" for sub
  proof -
    have em: "?em (customer sub) = Undefined"
      by (rule emailMap_missing [OF miss])
    have "fold setUser ?users (\<lambda>k. None) Undefined = None"
      by (rule fold_setUser_Undefined) simp
    with candidates_row [OF sub] em show ?thesis
      by (intro throws [where row = "\<lparr>customerId = customer sub, email = Undefined,
          row_status = status sub, uid = None\<rparr>"]) simp_all
  qed
  have p4: "syncSubscribers md5 env st = (HashThrew, st)"
    if faithful: "\<forall>e u. getUserByEmail env e = Some u \<longrightarrow> user_email u = e"
      and sub: "sub \<in> set (getAllActiveSubscriptions env)"
      and em: "?em (customer sub) = Str e" and none: "getUserByEmail env e = None" for sub e
  proof -
    have "\<forall>u. Some u \<in> set ?users \<longrightarrow> user_email u \<noteq> e"
    proof (intro allI impI)
      fix u assume "Some u \<in> set ?users"
      then obtain e' where e': "getUserByEmail env e' = Some u"
        using fetchBatch_users by blast
      with faithful have "user_email u = e'" by blast
      with e' none show "user_email u \<noteq> e" by auto
    qed
    then have "fold setUser ?users (\<lambda>k. None) (Str e) = None"
      by (simp add: fold_setUser_other)
    with candidates_row [OF sub] em show ?thesis
      by (intro throws [where row = "\<lparr>customerId = customer sub, email = Str e,
          row_status = status sub, uid = None\<rparr>"]) simp_all
  qed
  from p1 p2 p3 p4 show ?thesis by blast
qed

text \<open>The candidate records of the sample answers.\<close>

lemma sample_candidates:
  "candidates (sampleEnv sampleSubs) =
     [\<lparr>customerId = ''cus_1'', email = Str ''ann@x.org'', row_status = ''active'', uid = Some ''uA''\<rparr>,
      \<lparr>customerId = ''cus_2'', email = Str ''bob@x.org'', row_status = ''active'', uid = Some ''uB''\<rparr>]"
  by (simp add: candidates_def Let_def uidLoop_fold sampleEnv_def sampleSubs_def emailMapOf_def
      fetchBatch_def setUser_def)

lemma sample_first_pass:
  "syncSubscribers sampleMd5 (sampleEnv sampleSubs) sampleStart = (Committed, sampleSynced)"
  by (simp add: syncSubscribers_def Let_def sample_candidates transaction_def insertObject_def
      updateObject_def sampleStart_def sampleDb_def sampleSynced_def sampleMd5_def)
     (simp add: sampleEnv_def)

theorem second_pass_skips_writes_witness:
  "syncSubscribers sampleMd5 (sampleEnv sampleSubs) sampleStart = (Committed, sampleSynced)
   \<and> map uid (candidates (sampleEnv sampleSubsLater)) = map uid (candidates (sampleEnv sampleSubs))
   \<and> STRIPE_SECRET_KEY (sampleEnv sampleSubsLater)
   \<and> FIREBASE_ADMIN_SDK_CONFIG (sampleEnv sampleSubsLater)
   \<and> syncSubscribers sampleMd5 (sampleEnv sampleSubsLater) sampleSynced = (Unchanged, sampleSynced)"
proof -
  have same: "map uid (candidates (sampleEnv sampleSubsLater)) = map uid (candidates (sampleEnv sampleSubs))"
    by (simp add: candidates_def Let_def uidLoop_fold sampleEnv_def sampleSubs_def
        sampleSubsLater_def emailMapOf_def fetchBatch_def setUser_def)
  have cfg: "STRIPE_SECRET_KEY (sampleEnv sampleSubsLater)"
    "FIREBASE_ADMIN_SDK_CONFIG (sampleEnv sampleSubsLater)"
    by (simp_all add: sampleEnv_def)
  from second_pass_skips_writes [OF sample_first_pass _ same cfg] sample_first_pass same cfg
  show ?thesis by simp
qed

theorem changed_pass_replaces_witness:
  "STRIPE_SECRET_KEY (sampleEnv sampleSubs) \<and> FIREBASE_ADMIN_SDK_CONFIG (sampleEnv sampleSubs)
   \<and> hashUpdates (candidates (sampleEnv sampleSubs)) [] = Inr ''uAuB''
   \<and> Some (sampleMd5 ''uAuB'') \<noteq> lastSubsDigest sampleStart
   \<and> \<not> queryThrows (sampleEnv sampleSubs)
   \<and> fst (syncSubscribers sampleMd5 (sampleEnv sampleSubs) sampleStart) = Committed
   \<and> subscriberTable (db (snd (syncSubscribers sampleMd5 (sampleEnv sampleSubs) sampleStart)))
       = candidates (sampleEnv sampleSubs)
   \<and> roomTable (db (snd (syncSubscribers sampleMd5 (sampleEnv sampleSubs) sampleStart)))
       = [\<lparr>row_roomId = ''/one'', owner = Some ''uA'', isSubRoom = True\<rparr>,
          \<lparr>row_roomId = ''/two'', owner = Some ''uZ'', isSubRoom = False\<rparr>,
          \<lparr>row_roomId = ''/three'', owner = None, isSubRoom = False\<rparr>]"
proof -
  have cfg: "STRIPE_SECRET_KEY (sampleEnv sampleSubs)" "FIREBASE_ADMIN_SDK_CONFIG (sampleEnv sampleSubs)"
    "\<not> queryThrows (sampleEnv sampleSubs)"
    by (simp_all add: sampleEnv_def)
  have fed: "hashUpdates (candidates (sampleEnv sampleSubs)) [] = Inr ''uAuB''"
    by (simp add: sample_candidates)
  have changed: "Some (sampleMd5 ''uAuB'') \<noteq> lastSubsDigest sampleStart"
    by (simp add: sampleStart_def)
  from changed_pass_replaces [of "sampleEnv sampleSubs" "''uAuB''" sampleMd5 sampleStart,
      OF cfg(1,2) fed changed cfg(3)] cfg fed changed
  show ?thesis by (simp add: sample_candidates sampleStart_def sampleDb_def)
qed

theorem unresolved_uid_throws_witness:
  "STRIPE_SECRET_KEY (sampleEnv sampleSubsUnresolved)
   \<and> FIREBASE_ADMIN_SDK_CONFIG (sampleEnv sampleSubsUnresolved)
   \<and> uid (candidates (sampleEnv sampleSubsUnresolved) ! 1) = None
   \<and> syncSubscribers sampleMd5 (sampleEnv sampleSubsUnresolved) sampleStart = (HashThrew, sampleStart)"
proof -
  have cfg: "STRIPE_SECRET_KEY (sampleEnv sampleSubsUnresolved)"
    "FIREBASE_ADMIN_SDK_CONFIG (sampleEnv sampleSubsUnresolved)"
    by (simp_all add: sampleEnv_def)
  have cand: "candidates (sampleEnv sampleSubsUnresolved) =
     [\<lparr>customerId = ''cus_1'', email = Str ''ann@x.org'', row_status = ''active'', uid = Some ''uA''\<rparr>,
      \<lparr>customerId = ''cus_3'', email = Str ''cat@x.org'', row_status = ''active'', uid = None\<rparr>]"
    by (simp add: candidates_def Let_def uidLoop_fold sampleEnv_def sampleSubsUnresolved_def
        emailMapOf_def fetchBatch_def setUser_def)
  have ex: "\<exists>row \<in> set (candidates (sampleEnv sampleSubsUnresolved)). uid row = None"
    by (simp add: cand)
  from unresolved_uid_throws [OF cfg, of sampleMd5 sampleStart] ex cfg
  show ?thesis by (simp add: cand)
qed

section \<open>Lock renewal\<close>

lemma fold_redisApply_key:
  assumes "0 < T"
    and "\<forall>c \<in> set cmds. cmdKey c = K \<longrightarrow> c = Expire K T"
    and "alive now (st K)"
  shows "alive now (fold (redisApply now) cmds st K)
       \<and> (st K = Some (ExpiresAt (now + of_int T)) \<or> Expire K T \<in> set cmds \<longrightarrow>
            fold (redisApply now) cmds st K = Some (ExpiresAt (now + of_int T)))"
  using assms(2,3)
proof (induction cmds arbitrary: st)
  case Nil
  then show ?case by simp
next
  case (Cons c cmds)
  let ?st = "redisApply now c st"
  have rest: "\<forall>c \<in> set cmds. cmdKey c = K \<longrightarrow> c = Expire K T"
    using Cons.prems(1) by simp
  show ?case
  proof (cases "cmdKey c = K")
    case True
    then have c: "c = Expire K T" using Cons.prems(1) by simp
    have v: "?st K = Some (ExpiresAt (now + of_int T))"
      using Cons.prems(2) by (simp add: c)
    have al: "alive now (?st K)"
      using assms(1) by (simp add: v)
    from Cons.IH [of ?st, OF rest al] v assms(1) show ?thesis by simp
  next
    case False
    have same: "?st K = st K"
      using False by (cases c) auto
    have al: "alive now (?st K)"
      using Cons.prems(2) by (simp add: same)
    have ne: "c \<noteq> Expire K T" using False by auto
    from Cons.IH [of ?st, OF rest al] same ne show ?thesis by auto
  qed
qed

lemma renewRoom_lock_cmds:
  assumes "c \<in> set (renewRoom sod r)" and "cmdKey c = ''lock:'' @ x"
  shows "\<exists>k. c = Expire k 300"
  using assms
  by (auto simp: renewRoom_def Let_def split: option.splits if_splits)

lemma renewRoom_uid_cmds:
  assumes "c \<in> set (renewRoom sod r)" and "cmdKey c = ''vBrowserUIDLock:'' @ x"
  shows "\<exists>k. c = Expire k 120"
  using assms
  by (auto simp: renewRoom_def Let_def split: option.splits if_splits)

lemma minuteMetrics_cmds:
  "c \<in> set (minuteMetrics True sod s) \<longleftrightarrow> (\<exists>r \<in> snd ` set (rooms s). c \<in> set (renewRoom sod r))"
  by (force simp: minuteMetrics_def)

lemma renewRoom_session:
  assumes "vBrowser r = Some vb" and "truthyStr (vmId vb)"
  shows "Expire (''lock:'' @ js_concat (provider vb) @ '':'' @ js_concat (vmId vb)) 300
           \<in> set (renewRoom sod r)"
    and "Expire (''vBrowserUIDLock:'' @ js_concat (creatorUID vb)) 120 \<in> set (renewRoom sod r)"
  using assms by (simp_all add: renewRoom_def Let_def)

lemma renewals_key:
  assumes T: "P < of_int T" and P: "0 \<le> P"
    and only: "\<forall>(sod, s) \<in> set runs. \<forall>c \<in> set (minuteMetrics True sod s). cmdKey c = K \<longrightarrow> c = Expire K T"
    and each: "\<forall>(sod, s) \<in> set runs. Expire K T \<in> set (minuteMetrics True sod s)"
    and held: "alive now (st K)"
    and ne: "runs \<noteq> []"
  shows "renewals P now runs st K = Some (ExpiresAt (now + P * of_nat (length runs - 1) + of_int T))"
  using only each held ne
proof (induction runs arbitrary: now st)
  case Nil
  then show ?case by simp
next
  case (Cons run runs)
  obtain sod s where run: "run = (sod, s)" by (cases run)
  let ?st = "fold (redisApply now) (minuteMetrics True sod s) st"
  have "(0::rat) < of_int T" using T P by linarith
  then have T0: "0 < T" by simp
  have o: "\<forall>c \<in> set (minuteMetrics True sod s). cmdKey c = K \<longrightarrow> c = Expire K T"
    using Cons.prems(1) by (simp add: run)
  have e: "Expire K T \<in> set (minuteMetrics True sod s)"
    using Cons.prems(2) by (simp add: run)
  have v: "?st K = Some (ExpiresAt (now + of_int T))"
    using fold_redisApply_key [of T "minuteMetrics True sod s" K now st, OF T0 o Cons.prems(3)] e
    by simp
  show ?case
  proof (cases "runs = []")
    case True
    then show ?thesis by (simp add: run v)
  next
    case False
    have al: "alive (now + P) (?st K)"
      using T by (simp add: v)
    have o': "\<forall>(sod, s) \<in> set runs. \<forall>c \<in> set (minuteMetrics True sod s). cmdKey c = K \<longrightarrow> c = Expire K T"
      using Cons.prems(1) by simp
    have e': "\<forall>(sod, s) \<in> set runs. Expire K T \<in> set (minuteMetrics True sod s)"
      using Cons.prems(2) by simp
    have "renewals P (now + P) runs ?st K
        = Some (ExpiresAt (now + P + P * of_nat (length runs - 1) + of_int T))"
      by (rule Cons.IH [of "now + P" ?st, OF o' e' al False])
    moreover have "length (run # runs) - 1 = Suc (length runs - 1)"
      using False by (cases runs) simp_all
    ultimately show ?thesis
      by (simp add: run algebra_simps)
  qed
qed

lemma init_started:
  assumes "getAllRooms cfg pg = Inr rows"
  shows "fst (init cfg pg newRoom initialProcess) = Returned"
    and "timers (snd (init cfg pg newRoom initialProcess)) =
           [(MinuteMetrics, 60 * 1000), (Release, releaseInterval div releaseBatches),
            (FreeUnusedRooms, 5 * 60 * 1000)]"
  using assms
  by (auto simp: init_def initialProcess_def Let_def getAllRooms_def split: option.splits)

text \<open>
  C9. When the startup query does not throw, \<open>init\<close> returns with exactly one timer
  for \<open>minuteMetrics\<close>, of 60 seconds. In every run, for a room whose session has an
  id, the lock of the provider is set to expire in 300 seconds and the lock of the
  creator in 120 seconds, and every time to live a run sets is longer than the period
  of that timer. Hence, with a key store, runs at the period of the timer and both
  locks held at the first run, both locks are still held at every instant from the
  last run to the next one, for as many runs as the session stays in the registry.
\<close>

theorem locks_stay_alive:
  assumes started: "getAllRooms cfg pg = Inr rows"
    and session: "vBrowser r0 = Some vb" "truthyStr (vmId vb)"
    and inuse: "\<forall>(sod, s) \<in> set runs. \<exists>r \<in> snd ` set (rooms s). vBrowser r = Some vb"
    and held: "alive now (st (''lock:'' @ js_concat (provider vb) @ '':'' @ js_concat (vmId vb)))"
      "alive now (st (''vBrowserUIDLock:'' @ js_concat (creatorUID vb)))"
    and ne: "runs \<noteq> []"
  shows "fst (init cfg pg newRoom initialProcess) = Returned
       \<and> map snd (filter (\<lambda>(t, ms). t = MinuteMetrics)
                      (timers (snd (init cfg pg newRoom initialProcess)))) = [60 * 1000]
       \<and> (\<forall>(sod, s) \<in> set runs.
            Expire (''lock:'' @ js_concat (provider vb) @ '':'' @ js_concat (vmId vb)) 300
              \<in> set (minuteMetrics True sod s)
            \<and> Expire (''vBrowserUIDLock:'' @ js_concat (creatorUID vb)) 120
              \<in> set (minuteMetrics True sod s)
            \<and> (\<forall>k ttl. Expire k ttl \<in> set (minuteMetrics True sod s) \<longrightarrow>
                  timerSeconds (snd (init cfg pg newRoom initialProcess)) MinuteMetrics
                    < of_int ttl))
       \<and> (\<forall>t. now + timerSeconds (snd (init cfg pg newRoom initialProcess)) MinuteMetrics
                      * of_nat (length runs - 1) \<le> t
              \<and> t \<le> now + timerSeconds (snd (init cfg pg newRoom initialProcess)) MinuteMetrics
                      * of_nat (length runs) \<longrightarrow>
            alive t (renewals (timerSeconds (snd (init cfg pg newRoom initialProcess)) MinuteMetrics)
              now runs st (''lock:'' @ js_concat (provider vb) @ '':'' @ js_concat (vmId vb)))
            \<and> alive t (renewals (timerSeconds (snd (init cfg pg newRoom initialProcess)) MinuteMetrics)
              now runs st (''vBrowserUIDLock:'' @ js_concat (creatorUID vb))))"
proof -
  let ?lock = "''lock:'' @ js_concat (provider vb) @ '':'' @ js_concat (vmId vb)"
  let ?uidk = "''vBrowserUIDLock:'' @ js_concat (creatorUID vb)"
  let ?p = "snd (init cfg pg newRoom initialProcess)"
  note st = init_started [OF started, of newRoom]
  have tm: "map snd (filter (\<lambda>(t, ms). t = MinuteMetrics) (timers ?p)) = [60 * 1000]"
    by (simp add: st(2))
  have P: "timerSeconds ?p MinuteMetrics = 60"
    by (simp add: timerSeconds_def st(2))
  have e1: "Expire ?lock 300 \<in> set (minuteMetrics True sod s)"
    and e2: "Expire ?uidk 120 \<in> set (minuteMetrics True sod s)"
    if "(sod, s) \<in> set runs" for sod s
  proof -
    from inuse that obtain r where r: "r \<in> snd ` set (rooms s)" "vBrowser r = Some vb" by blast
    from renewRoom_session [OF r(2) session(2), of sod] r(1)
    show "Expire ?lock 300 \<in> set (minuteMetrics True sod s)"
      and "Expire ?uidk 120 \<in> set (minuteMetrics True sod s)"
      unfolding minuteMetrics_cmds by blast+
  qed
  have ttl: "timerSeconds ?p MinuteMetrics < of_int ttl"
    if "Expire k ttl \<in> set (minuteMetrics True sod s)" for k ttl sod s
    using that unfolding minuteMetrics_cmds P
    by (auto simp: renewRoom_def Let_def split: option.splits if_splits)
  have o1: "c = Expire ?lock 300"
    if "c \<in> set (minuteMetrics True sod s)" "cmdKey c = ?lock" for c sod s
  proof -
    from that(1) obtain r where "c \<in> set (renewRoom sod r)"
      unfolding minuteMetrics_cmds by blast
    from renewRoom_lock_cmds [OF this, of "js_concat (provider vb) @ '':'' @ js_concat (vmId vb)"] that(2)
    show ?thesis by auto
  qed
  have o2: "c = Expire ?uidk 120"
    if "c \<in> set (minuteMetrics True sod s)" "cmdKey c = ?uidk" for c sod s
  proof -
    from that(1) obtain r where "c \<in> set (renewRoom sod r)"
      unfolding minuteMetrics_cmds by blast
    from renewRoom_uid_cmds [OF this, of "js_concat (creatorUID vb)"] that(2)
    show ?thesis by auto
  qed
  have v1: "renewals 60 now runs st ?lock
      = Some (ExpiresAt (now + 60 * of_nat (length runs - 1) + of_int 300))"
    by (rule renewals_key [of 60 300 runs ?lock now st, OF _ _ _ _ held(1) ne]) (use o1 e1 in auto)
  have v2: "renewals 60 now runs st ?uidk
      = Some (ExpiresAt (now + 60 * of_nat (length runs - 1) + of_int 120))"
    by (rule renewals_key [of 60 120 runs ?uidk now st, OF _ _ _ _ held(2) ne]) (use o2 e2 in auto)
  have len: "(of_nat (length runs) :: rat) = of_nat (length runs - 1) + 1"
    using ne by (cases runs) simp_all
  have p3: "alive t (renewals 60 now runs st ?lock) \<and> alive t (renewals 60 now runs st ?uidk)"
    if "t \<le> now + 60 * of_nat (length runs)" for t
    using that unfolding v1 v2 len by (simp add: algebra_simps)
  show ?thesis
    unfolding P using st(1) tm e1 e2 ttl [unfolded P] p3 by blast
qed

theorem locks_stay_alive_witness:
  "getAllRooms \<lparr>SHARD = None, numShards = 0\<rparr> None = Inr []
   \<and> vBrowser roomOneMinuteLeft = Some (sampleSession 1000)
   \<and> truthyStr (vmId (sampleSession 1000))
   \<and> roomOneMinuteLeft \<in> snd ` set (rooms sampleRenewed)
   \<and> alive 0 (sampleLocks ''lock:Docker:vm1'')
   \<and> alive 0 (sampleLocks ''vBrowserUIDLock:u1'')
   \<and> fst (init \<lparr>SHARD = None, numShards = 0\<rparr> None sampleNewRoom initialProcess) = Returned
   \<and> map snd (filter (\<lambda>(t, ms). t = MinuteMetrics)
        (timers (snd (init \<lparr>SHARD = None, numShards = 0\<rparr> None sampleNewRoom initialProcess))))
       = [60000]
   \<and> alive 180
        (renewals
          (timerSeconds (snd (init \<lparr>SHARD = None, numShards = 0\<rparr> None sampleNewRoom initialProcess))
             MinuteMetrics)
          0 [(0, sampleRenewed), (0, sampleRenewed), (0, sampleRenewed)]
          sampleLocks ''lock:Docker:vm1'')
   \<and> alive 180
        (renewals
          (timerSeconds (snd (init \<lparr>SHARD = None, numShards = 0\<rparr> None sampleNewRoom initialProcess))
             MinuteMetrics)
          0 [(0, sampleRenewed), (0, sampleRenewed), (0, sampleRenewed)]
          sampleLocks ''vBrowserUIDLock:u1'')"
proof -
  let ?runs = "[(0::int, sampleRenewed), (0, sampleRenewed), (0, sampleRenewed)]"
  let ?cfg = "\<lparr>SHARD = None, numShards = 0\<rparr>"
  let ?P = "timerSeconds (snd (init ?cfg None sampleNewRoom initialProcess)) MinuteMetrics"
  have g: "getAllRooms ?cfg None = Inr []"
    by (simp add: getAllRooms_def)
  have a: "vBrowser roomOneMinuteLeft = Some (sampleSession 1000)"
    "truthyStr (vmId (sampleSession 1000))"
    by (simp_all add: roomOneMinuteLeft_def sampleSession_def truthyStr_def)
  have b: "roomOneMinuteLeft \<in> snd ` set (rooms sampleRenewed)"
    by (simp add: sampleRenewed_def)
  have keys: "''lock:'' @ js_concat (provider (sampleSession 1000)) @ '':''
        @ js_concat (vmId (sampleSession 1000)) = ''lock:Docker:vm1''"
    "''vBrowserUIDLock:'' @ js_concat (creatorUID (sampleSession 1000)) = ''vBrowserUIDLock:u1''"
    by (simp_all add: sampleSession_def js_concat_def)
  have d: "alive 0 (sampleLocks ''lock:Docker:vm1'')" "alive 0 (sampleLocks ''vBrowserUIDLock:u1'')"
    by (simp_all add: sampleLocks_def)
  have inuse: "\<forall>(sod, s) \<in> set ?runs. \<exists>r \<in> snd ` set (rooms s). vBrowser r = Some (sampleSession 1000)"
    using a(1) b by force
  have P: "?P = 60"
    by (simp add: timerSeconds_def init_def initialProcess_def Let_def)
  note inst = locks_stay_alive [of ?cfg None "[]" roomOneMinuteLeft "sampleSession 1000" ?runs 0
      sampleLocks sampleNewRoom, OF g a inuse, unfolded keys, OF d]
  have i1: "fst (init ?cfg None sampleNewRoom initialProcess) = Returned"
    using inst by simp
  have i2: "map snd (filter (\<lambda>(t, ms). t = MinuteMetrics)
        (timers (snd (init ?cfg None sampleNewRoom initialProcess)))) = [60000]"
    using inst by simp
  have i3: "\<forall>t. 0 + ?P * of_nat (length ?runs - 1) \<le> t \<and> t \<le> 0 + ?P * of_nat (length ?runs) \<longrightarrow>
      alive t (renewals ?P 0 ?runs sampleLocks ''lock:Docker:vm1'')
      \<and> alive t (renewals ?P 0 ?runs sampleLocks ''vBrowserUIDLock:u1'')"
    using inst by simp
  have "0 + ?P * of_nat (length ?runs - 1) \<le> 180 \<and> 180 \<le> 0 + ?P * of_nat (length ?runs)"
    unfolding P by simp
  with i3 have i4: "alive 180 (renewals ?P 0 ?runs sampleLocks ''lock:Docker:vm1'')
      \<and> alive 180 (renewals ?P 0 ?runs sampleLocks ''vBrowserUIDLock:u1'')"
    by blast
  from g a b d i1 i2 i4 show ?thesis by (intro conjI) simp_all
qed

end
